theory Spec2Isabelle
  imports Main
begin

section \<open>Text\<close>

text \<open>
  A Python \<open>str\<close> is modelled by a HOL \<open>string\<close>, one \<open>char\<close> per code point, so the
  texts covered are those whose code points lie in the 8-bit range; on that range the
  functions below agree with Python's \<open>str.isspace\<close>, \<open>str.strip\<close>, \<open>str.lower\<close>,
  the \<open>in\<close> test on strings and \<open>str.encode\<close> (UTF-8). A byte string is a \<open>string\<close>
  too, one \<open>char\<close> per byte.
\<close>

definition isspace :: "char \<Rightarrow> bool" where
  "isspace c =
     (let n = (of_char c :: nat)
      in (9 \<le> n \<and> n \<le> 13) \<or> (28 \<le> n \<and> n \<le> 32) \<or> n = 133 \<or> n = 160)"

definition strip_chars :: "(char \<Rightarrow> bool) \<Rightarrow> string \<Rightarrow> string" where
  "strip_chars P s = rev (dropWhile P (rev (dropWhile P s)))"

definition strip :: "string \<Rightarrow> string" where
  "strip s = strip_chars isspace s"

definition is_quote :: "char \<Rightarrow> bool" where
  "is_quote c = (c = CHR 0x22 \<or> c = CHR 0x27)"

definition lower_char :: "char \<Rightarrow> char" where
  "lower_char c =
     (let n = (of_char c :: nat)
      in if (65 \<le> n \<and> n \<le> 90) \<or> (192 \<le> n \<and> n \<le> 222 \<and> n \<noteq> 215)
         then char_of (n + 32) else c)"

definition lower :: "string \<Rightarrow> string" where
  "lower s = map lower_char s"

fun starts_with :: "string \<Rightarrow> string \<Rightarrow> bool" where
  "starts_with [] s = True"
| "starts_with (p # ps) [] = False"
| "starts_with (p # ps) (c # cs) = (p = c \<and> starts_with ps cs)"

fun contains :: "string \<Rightarrow> string \<Rightarrow> bool" where
  "contains sub [] = (sub = [])"
| "contains sub (c # cs) = (starts_with sub (c # cs) \<or> contains sub cs)"

definition encode_char :: "char \<Rightarrow> string" where
  "encode_char c =
     (let n = (of_char c :: nat)
      in if n < 128 then [c] else [char_of (192 + n div 64), char_of (128 + n mod 64)])"

definition encode :: "string \<Rightarrow> string" where
  "encode s = concat (map encode_char s)"

section \<open>Configuration (config.py)\<close>

text \<open>
  The settings of \<open>config.py\<close> are read from the process environment when the module is
  loaded, so they are parameters of the model. \<open>hashlib.md5(b).hexdigest()\<close> is a
  library function; it is the parameter \<open>md5_hexdigest\<close>, from bytes to the hexadecimal
  digest, and every theorem below holds for whatever function stands there.
\<close>

record config =
  X_API_KEY :: "string option"
  X_API_SECRET_KEY :: "string option"
  X_ACCESS_TOKEN :: "string option"
  X_ACCESS_TOKEN_SECRET :: "string option"
  GEMINI_API_KEY :: "string option"
  RATE_LIMIT_THRESHOLD :: int
  RATE_LIMIT_MAX :: int
  PROMPT_generate_tweet :: string
  md5_hexdigest :: "string \<Rightarrow> string"

section \<open>Exceptions, the log file, the outside world\<close>

text \<open>
  Each exception carries its message, which is what \<open>str(e)\<close> gives. \<open>DatabaseError\<close>
  stands for \<open>sqlite3.Error\<close> and its subclasses, \<open>PlatformError\<close> for whatever the
  client of the social platform raises, \<open>ModelError\<close> for whatever the generative
  model's client raises.
\<close>

datatype exn =
    DatabaseError string
  | ValueError string
  | EOFError string
  | PlatformError string
  | ModelError string

fun str :: "exn \<Rightarrow> string" where
  "str (DatabaseError m) = m"
| "str (ValueError m) = m"
| "str (EOFError m) = m"
| "str (PlatformError m) = m"
| "str (ModelError m) = m"

text \<open>
  A line of \<open>bot_errors.log\<close> is kept as the format that wrote it and the message put
  into it:
  \<open>LogDatabaseError\<close> is \<open>"Database error: {e}"\<close>,
  \<open>LogIncrementFailed\<close> is \<open>"Failed to increment post count: {e}"\<close>,
  \<open>LogRecordFailed\<close> is \<open>"Failed to record posted tweet: {e}"\<close>,
  \<open>LogPostError\<close> is \<open>"Error posting tweet: {e}"\<close> and
  \<open>LogGenerateError\<close> is \<open>"Error generating tweet: {e}"\<close>.
\<close>

datatype log_line =
    LogDatabaseError string
  | LogIncrementFailed string
  | LogRecordFailed string
  | LogPostError string
  | LogGenerateError string

text \<open>The object \<open>create_tweet\<close> returns; \<open>data_id\<close> is \<open>response.data['id']\<close>.\<close>

datatype response = Response (data_id: string)

datatype api_outcome = Created response | ApiRaises string

datatype gen_outcome = GenText string | GenNoResponse | GenRaises string

text \<open>
  What an observer outside the process sees, in order: \<open>EvInput r\<close> is the confirmation
  prompt answered with the line \<open>r\<close>; \<open>EvTweet m t\<close> is the text \<open>t\<close> accepted by the
  platform, \<open>m\<close> being the month the clock showed then.
\<close>

datatype event = EvInput string | EvTweet string string

text \<open>
  The state the program runs in. The two tables are lists of rows in insertion order,
  \<open>post_counts\<close> with the columns \<open>(month, count)\<close> and \<open>posted_tweets\<close> with
  \<open>(content_hash, tweet_id)\<close>; the row ids and the \<open>posted_at\<close> stamp are never read and
  are left out. \<open>current_month\<close> is what \<open>time.strftime("%Y-%m")\<close> returns.

  The rest is the environment's side. \<open>db_faults\<close> says, for each \<open>with
  get_db_connection()\<close> block still to come, whether sqlite raises in it (\<open>Some\<close> the
  message) or not; past its end nothing fails. \<open>stdin\<close> holds the lines still to be
  read, \<open>platform\<close> the answers to the coming \<open>create_tweet\<close> calls and \<open>gemini\<close> those
  to the coming \<open>generate_content\<close> calls. What the program prints is not modelled.
\<close>

record world =
  post_counts :: "(string \<times> int) list"
  posted_tweets :: "(string \<times> string) list"
  current_month :: string
  db_faults :: "string option list"
  stdin :: "string list"
  platform :: "api_outcome list"
  gemini :: "gen_outcome list"
  log :: "log_line list"
  events :: "event list"

section \<open>database.py\<close>

text \<open>
  \<open>get_db_connection\<close> is the outcome of one \<open>with get_db_connection() as conn:\<close>
  block. Every block of the module holds a single statement, followed by a commit when
  it writes, so a block in which sqlite raises leaves the tables as they were; the
  context manager then logs the error and raises it again.
\<close>

definition get_db_connection :: "world \<Rightarrow> (exn + unit) \<times> world" where
  "get_db_connection w =
     (case db_faults w of
        [] \<Rightarrow> (Inr (), w)
      | None # fs \<Rightarrow> (Inr (), w\<lparr>db_faults := fs\<rparr>)
      | Some e # fs \<Rightarrow>
          (Inl (DatabaseError e), w\<lparr>db_faults := fs, log := log w @ [LogDatabaseError e]\<rparr>))"

definition get_current_month :: "world \<Rightarrow> string" where
  "get_current_month w = current_month w"

definition get_post_count :: "world \<Rightarrow> (exn + int) \<times> world" where
  "get_post_count w =
     (case get_db_connection w of
        (Inl e, w1) \<Rightarrow> (Inl e, w1)
      | (Inr conn, w1) \<Rightarrow>
          (let result = map_of (post_counts w1) (get_current_month w1)
           in (Inr (case result of Some count \<Rightarrow> count | None \<Rightarrow> 0), w1)))"

text \<open>
  \<open>INSERT INTO post_counts (month, count) VALUES (?, 1) ON CONFLICT(month) DO UPDATE SET
  count = count + 1\<close>. The column is a 64-bit integer in sqlite and an \<open>int\<close> here.
\<close>

fun upsert_count :: "string \<Rightarrow> (string \<times> int) list \<Rightarrow> (string \<times> int) list" where
  "upsert_count m [] = [(m, 1)]"
| "upsert_count m ((m', c) # rows) =
     (if m' = m then (m', c + 1) # rows else (m', c) # upsert_count m rows)"

definition increment_post_count :: "world \<Rightarrow> (exn + bool) \<times> world" where
  "increment_post_count w =
     (case get_db_connection w of
        (Inl (DatabaseError e), w1) \<Rightarrow>
          (Inr False, w1\<lparr>log := log w1 @ [LogIncrementFailed e]\<rparr>)
      | (Inl e, w1) \<Rightarrow> (Inl e, w1)
      | (Inr conn, w1) \<Rightarrow>
          (Inr True, w1\<lparr>post_counts := upsert_count (get_current_month w1) (post_counts w1)\<rparr>))"

definition get_content_hash :: "config \<Rightarrow> string \<Rightarrow> string" where
  "get_content_hash cfg content = md5_hexdigest cfg (encode content)"

definition has_posted_before :: "config \<Rightarrow> string \<Rightarrow> world \<Rightarrow> (exn + bool) \<times> world" where
  "has_posted_before cfg content w =
     (let content_hash = get_content_hash cfg content
      in case get_db_connection w of
           (Inl e, w1) \<Rightarrow> (Inl e, w1)
         | (Inr conn, w1) \<Rightarrow> (Inr (map_of (posted_tweets w1) content_hash \<noteq> None), w1))"

text \<open>\<open>INSERT OR IGNORE INTO posted_tweets (content_hash, tweet_id) VALUES (?, ?)\<close>\<close>

definition insert_or_ignore ::
  "string \<Rightarrow> string \<Rightarrow> (string \<times> string) list \<Rightarrow> (string \<times> string) list" where
  "insert_or_ignore content_hash tweet_id rows =
     (if map_of rows content_hash \<noteq> None then rows else rows @ [(content_hash, tweet_id)])"

definition record_posted_tweet ::
  "config \<Rightarrow> string \<Rightarrow> string \<Rightarrow> world \<Rightarrow> (exn + bool) \<times> world" where
  "record_posted_tweet cfg content tweet_id w =
     (let content_hash = get_content_hash cfg content
      in case get_db_connection w of
           (Inl (DatabaseError e), w1) \<Rightarrow>
             (Inr False, w1\<lparr>log := log w1 @ [LogRecordFailed e]\<rparr>)
         | (Inl e, w1) \<Rightarrow> (Inl e, w1)
         | (Inr conn, w1) \<Rightarrow>
             (Inr True,
              w1\<lparr>posted_tweets := insert_or_ignore content_hash tweet_id (posted_tweets w1)\<rparr>))"

section \<open>config.py: the clients\<close>

text \<open>Python's \<open>not v\<close> for a setting \<open>v\<close> read with \<open>os.getenv\<close>: unset or empty.\<close>

definition unset :: "string option \<Rightarrow> bool" where
  "unset v = (v = None \<or> v = Some [])"

fun join :: "string \<Rightarrow> string list \<Rightarrow> string" where
  "join sep [] = []"
| "join sep [x] = x"
| "join sep (x # y # ys) = x @ sep @ join sep (y # ys)"

definition validate_x_credentials :: "config \<Rightarrow> exn + bool" where
  "validate_x_credentials cfg =
     (let required = [X_API_KEY cfg, X_API_SECRET_KEY cfg, X_ACCESS_TOKEN cfg,
                      X_ACCESS_TOKEN_SECRET cfg]
      in if \<not> list_all (\<lambda>v. \<not> unset v) required then
           (let missing =
                  (if unset (X_API_KEY cfg) then [''X_API_KEY''] else []) @
                  (if unset (X_API_SECRET_KEY cfg) then [''X_API_SECRET_KEY''] else []) @
                  (if unset (X_ACCESS_TOKEN cfg) then [''X_ACCESS_TOKEN''] else []) @
                  (if unset (X_ACCESS_TOKEN_SECRET cfg) then [''X_ACCESS_TOKEN_SECRET''] else [])
            in Inl (ValueError (''Missing X API credentials: '' @ join '', '' missing)))
         else Inr True)"

text \<open>Building the client object contacts nobody; the object itself is not modelled.\<close>

definition get_x_client :: "config \<Rightarrow> exn + unit" where
  "get_x_client cfg =
     (case validate_x_credentials cfg of Inl e \<Rightarrow> Inl e | Inr ok \<Rightarrow> Inr ())"

definition validate_gemini_credentials :: "config \<Rightarrow> exn + bool" where
  "validate_gemini_credentials cfg =
     (if unset (GEMINI_API_KEY cfg)
      then Inl (ValueError ''Missing GEMINI_API_KEY in environment variables'')
      else Inr True)"

definition get_gemini_model :: "config \<Rightarrow> exn + unit" where
  "get_gemini_model cfg =
     (case validate_gemini_credentials cfg of Inl e \<Rightarrow> Inl e | Inr ok \<Rightarrow> Inr ())"

section \<open>The two services and the terminal\<close>

text \<open>
  \<open>client.create_tweet(text=...)\<close>: the platform either accepts the text, which is the
  transmission, and answers with a response holding the new id, or the client raises.
  Past the end of \<open>platform\<close> the service cannot be reached and the client raises.
\<close>

definition create_tweet :: "string \<Rightarrow> world \<Rightarrow> (exn + response) \<times> world" where
  "create_tweet text w =
     (case platform w of
        [] \<Rightarrow> (Inl (PlatformError []), w)
      | Created r # ps \<Rightarrow>
          (Inr r, w\<lparr>platform := ps, events := events w @ [EvTweet (current_month w) text]\<rparr>)
      | ApiRaises m # ps \<Rightarrow> (Inl (PlatformError m), w\<lparr>platform := ps\<rparr>))"

text \<open>
  \<open>model.generate_content(prompt)\<close> followed by reading \<open>response.text\<close>: \<open>Some\<close> the
  text, \<open>None\<close> for a response that is itself false, or an exception from either step.
\<close>

definition generate_content :: "string \<Rightarrow> world \<Rightarrow> (exn + string option) \<times> world" where
  "generate_content prompt w =
     (case gemini w of
        [] \<Rightarrow> (Inl (ModelError []), w)
      | GenText t # gs \<Rightarrow> (Inr (Some t), w\<lparr>gemini := gs\<rparr>)
      | GenNoResponse # gs \<Rightarrow> (Inr None, w\<lparr>gemini := gs\<rparr>)
      | GenRaises m # gs \<Rightarrow> (Inl (ModelError m), w\<lparr>gemini := gs\<rparr>))"

text \<open>\<open>input(prompt)\<close>: the next line of standard input, \<open>EOFError\<close> when there is none.\<close>

definition input :: "world \<Rightarrow> (exn + string) \<times> world" where
  "input w =
     (case stdin w of
        [] \<Rightarrow> (Inl (EOFError ''EOF when reading a line''), w)
      | line # rest \<Rightarrow> (Inr line, w\<lparr>stdin := rest, events := events w @ [EvInput line]\<rparr>))"

section \<open>post_tweet.py\<close>

definition generate_tweet_except :: "exn \<Rightarrow> world \<Rightarrow> string option \<times> world" where
  "generate_tweet_except e w = (None, w\<lparr>log := log w @ [LogGenerateError (str e)]\<rparr>)"

definition generate_tweet :: "config \<Rightarrow> string \<Rightarrow> world \<Rightarrow> string option \<times> world" where
  "generate_tweet cfg topic w =
     (case get_gemini_model cfg of
        Inl e \<Rightarrow> generate_tweet_except e w
      | Inr model \<Rightarrow>
          (let prompt = PROMPT_generate_tweet cfg @ '' '' @ topic
           in case generate_content prompt w of
                (Inl e, w1) \<Rightarrow> generate_tweet_except e w1
              | (Inr None, w1) \<Rightarrow> (None, w1)
              | (Inr (Some text), w1) \<Rightarrow>
                  if text = [] then (None, w1)
                  else
                    (let generated_text = strip text;
                         generated_text = strip_chars is_quote generated_text;
                         generated_text =
                           (if length generated_text > 280
                            then take 277 generated_text @ ''...''
                            else generated_text)
                     in (Some generated_text, w1))))"

text \<open>
  The \<open>except Exception as e\<close> clause of \<open>post_tweet\<close>. Both of its branches print and
  return \<open>None\<close>; the second also writes to the log.
\<close>

definition post_tweet_except :: "exn \<Rightarrow> world \<Rightarrow> response option \<times> world" where
  "post_tweet_except e w =
     (let error_str = str e
      in if contains ''402'' error_str \<or> contains ''credits'' (lower error_str)
         then (None, w)
         else (None, w\<lparr>log := log w @ [LogPostError error_str]\<rparr>))"

text \<open>
  The end of the \<open>try\<close> block of \<open>post_tweet\<close>, from the comment \<open># Post the tweet\<close> on:
  both branches of the approval step continue here.
\<close>

definition post_the_tweet :: "config \<Rightarrow> string \<Rightarrow> world \<Rightarrow> response option \<times> world" where
  "post_the_tweet cfg message w =
     (case get_x_client cfg of
        Inl e \<Rightarrow> post_tweet_except e w
      | Inr client \<Rightarrow>
          (case create_tweet message w of
             (Inl e, w1) \<Rightarrow> post_tweet_except e w1
           | (Inr response, w1) \<Rightarrow>
               (let tweet_id = data_id response
                in case increment_post_count w1 of
                     (Inl e, w2) \<Rightarrow> post_tweet_except e w2
                   | (Inr counted, w2) \<Rightarrow>
                       (case record_posted_tweet cfg message tweet_id w2 of
                          (Inl e, w3) \<Rightarrow> post_tweet_except e w3
                        | (Inr recorded, w3) \<Rightarrow> (Some response, w3)))))"

text \<open>
  Between the quota check and the duplicate check the source prints a warning when the
  count has reached \<open>RATE_LIMIT_THRESHOLD\<close>; it changes nothing else.
\<close>

definition post_tweet :: "config \<Rightarrow> string \<Rightarrow> bool \<Rightarrow> world \<Rightarrow> response option \<times> world" where
  "post_tweet cfg message require_approval w =
     (if message = [] \<or> length (strip message) = 0 then (None, w)
      else if length message > 280 then (None, w)
      else
        (case get_post_count w of
           (Inl e, w1) \<Rightarrow> post_tweet_except e w1
         | (Inr current_count, w1) \<Rightarrow>
             if current_count \<ge> RATE_LIMIT_MAX cfg then (None, w1)
             else
               (case has_posted_before cfg message w1 of
                  (Inl e, w2) \<Rightarrow> post_tweet_except e w2
                | (Inr True, w2) \<Rightarrow> (None, w2)
                | (Inr False, w2) \<Rightarrow>
                    if require_approval then
                      (case input w2 of
                         (Inl e, w3) \<Rightarrow> post_tweet_except e w3
                       | (Inr line, w3) \<Rightarrow>
                           (let response = lower (strip line)
                            in if response \<noteq> ''y'' then (None, w3)
                               else post_the_tweet cfg message w3))
                    else post_the_tweet cfg message w2)))"

section \<open>Observations used in the statements\<close>

text \<open>The tally stored for a month: the \<open>count\<close> of its row, 0 when it has no row.\<close>

definition count_for :: "string \<Rightarrow> world \<Rightarrow> int" where
  "count_for m w = (case map_of (post_counts w) m of Some c \<Rightarrow> c | None \<Rightarrow> 0)"

text \<open>The tweets the platform has accepted so far, each with the month it was sent in.\<close>

fun tweets_of :: "event list \<Rightarrow> (string \<times> string) list" where
  "tweets_of [] = []"
| "tweets_of (EvTweet m t # es) = (m, t) # tweets_of es"
| "tweets_of (EvInput r # es) = tweets_of es"

definition transmitted :: "world \<Rightarrow> (string \<times> string) list" where
  "transmitted w = tweets_of (events w)"

definition tweets_in :: "string \<Rightarrow> world \<Rightarrow> int" where
  "tweets_in m w = int (length (filter (\<lambda>p. fst p = m) (transmitted w)))"

text \<open>
  Whether sqlite raises in the \<open>n\<close>-th connection block from now, counting from 0. A call
  of \<open>post_tweet\<close> that gets as far as the platform opens four: \<open>get_post_count\<close> (0),
  \<open>has_posted_before\<close> (1), \<open>increment_post_count\<close> (2), \<open>record_posted_tweet\<close> (3).
\<close>

fun nth_fault :: "string option list \<Rightarrow> nat \<Rightarrow> string option" where
  "nth_fault [] n = None"
| "nth_fault (f # fs) 0 = f"
| "nth_fault (f # fs) (Suc n) = nth_fault fs n"

definition fault_at :: "nat \<Rightarrow> world \<Rightarrow> string option" where
  "fault_at n w = nth_fault (db_faults w) n"

text \<open>The next line of standard input, stripped and lowercased, is \<open>y\<close>.\<close>

definition says_yes :: "world \<Rightarrow> bool" where
  "says_yes w = (case stdin w of [] \<Rightarrow> False | line # rest \<Rightarrow> lower (strip line) = ''y'')"

text \<open>No two rows of \<open>posted_tweets\<close> have the same \<open>content_hash\<close>.\<close>

definition unique_hashes :: "world \<Rightarrow> bool" where
  "unique_hashes w = distinct (map fst (posted_tweets w))"

text \<open>
  A history of the program: calls of \<open>post_tweet\<close> one after the other, the clock showing
  the given month during each. The faults, input lines and platform answers of the whole
  history are those of the starting state.
\<close>

fun run :: "config \<Rightarrow> (string \<times> string \<times> bool) list \<Rightarrow> world \<Rightarrow> world" where
  "run cfg [] w = w"
| "run cfg ((month, message, require_approval) # calls) w =
     run cfg calls (snd (post_tweet cfg message require_approval (w\<lparr>current_month := month\<rparr>)))"

section \<open>Concrete inputs\<close>

text \<open>
  The settings with their defaults and all credentials present. The digest is the
  parameter; here it is the identity on the encoded text.
\<close>

definition example_config :: config where
  "example_config =
     \<lparr>X_API_KEY = Some ''k'', X_API_SECRET_KEY = Some ''s'', X_ACCESS_TOKEN = Some ''t'',
      X_ACCESS_TOKEN_SECRET = Some ''u'', GEMINI_API_KEY = Some ''g'',
      RATE_LIMIT_THRESHOLD = 450, RATE_LIMIT_MAX = 500,
      PROMPT_generate_tweet = ''Topic:'', md5_hexdigest = (\<lambda>b. b)\<rparr>"

text \<open>A new database, a user who will answer \<open>y\<close>, a platform that will accept one tweet.\<close>

definition fresh_world :: world where
  "fresh_world =
     \<lparr>post_counts = [], posted_tweets = [], current_month = ''2026-01'', db_faults = [],
      stdin = [''y''], platform = [Created (Response ''17'')], gemini = [GenText ''hello''],
      log = [], events = []\<rparr>"

text \<open>The same with sqlite failing in the next connection block.\<close>

definition broken_db_world :: world where
  "broken_db_world = fresh_world\<lparr>db_faults := [Some ''disk I/O error'']\<rparr>"

text \<open>The same with the month's quota used up.\<close>

definition full_month_world :: world where
  "full_month_world = fresh_world\<lparr>post_counts := [(''2026-01'', 500)]\<rparr>"

text \<open>The same with the text \<open>hello\<close> already recorded as posted.\<close>

definition posted_world :: world where
  "posted_world = fresh_world\<lparr>posted_tweets := [(''hello'', ''16'')]\<rparr>"

text \<open>The same with a user who will answer \<open>n\<close>.\<close>

definition declining_world :: world where
  "declining_world = fresh_world\<lparr>stdin := [''n'']\<rparr>"

text \<open>
  The same with a model that answers 300 letters wrapped in double quotes and followed by
  a newline.
\<close>

definition long_reply_world :: world where
  "long_reply_world =
     fresh_world\<lparr>gemini :=
       [GenText (CHR 0x22 # replicate 300 CHR ''a'' @ [CHR 0x22, CHR ''\<newline>''])]\<rparr>"

text \<open>
  The same with sqlite failing in the third connection block from now, which in a call of
  \<open>post_tweet\<close> that reaches the platform is the one of \<open>increment_post_count\<close>.
\<close>

definition failing_write_world :: world where
  "failing_write_world = fresh_world\<lparr>db_faults := [None, None, Some ''disk I/O error'']\<rparr>"

section \<open>What each operation changes\<close>

lemma nth_fault_tl: "nth_fault (tl fs) n = nth_fault fs (Suc n)"
  by (cases fs) auto

lemma get_db_connection_effect:
  "get_db_connection w = (r, w1) \<Longrightarrow>
     r = (case fault_at 0 w of None \<Rightarrow> Inr () | Some e \<Rightarrow> Inl (DatabaseError e)) \<and>
     log w1 = log w @ (case fault_at 0 w of None \<Rightarrow> [] | Some e \<Rightarrow> [LogDatabaseError e]) \<and>
     post_counts w1 = post_counts w \<and> posted_tweets w1 = posted_tweets w \<and>
     events w1 = events w \<and> current_month w1 = current_month w \<and>
     stdin w1 = stdin w \<and> platform w1 = platform w \<and> db_faults w1 = tl (db_faults w)"
  by (auto simp: get_db_connection_def fault_at_def split: list.splits option.splits)

lemma get_post_count_effect:
  "get_post_count w = (r, w1) \<Longrightarrow>
     r = (case fault_at 0 w of None \<Rightarrow> Inr (count_for (current_month w) w)
          | Some e \<Rightarrow> Inl (DatabaseError e)) \<and>
     post_counts w1 = post_counts w \<and> posted_tweets w1 = posted_tweets w \<and>
     events w1 = events w \<and> current_month w1 = current_month w \<and>
     stdin w1 = stdin w \<and> platform w1 = platform w \<and> db_faults w1 = tl (db_faults w)"
  by (auto simp: get_post_count_def Let_def count_for_def get_current_month_def
      split: prod.splits sum.splits option.splits dest!: get_db_connection_effect)

lemma has_posted_before_effect:
  "has_posted_before cfg c w = (r, w1) \<Longrightarrow>
     r = (case fault_at 0 w of
            None \<Rightarrow> Inr (map_of (posted_tweets w) (get_content_hash cfg c) \<noteq> None)
          | Some e \<Rightarrow> Inl (DatabaseError e)) \<and>
     post_counts w1 = post_counts w \<and> posted_tweets w1 = posted_tweets w \<and>
     events w1 = events w \<and> current_month w1 = current_month w \<and>
     stdin w1 = stdin w \<and> platform w1 = platform w \<and> db_faults w1 = tl (db_faults w)"
  by (auto simp: has_posted_before_def Let_def
      split: prod.splits sum.splits option.splits dest!: get_db_connection_effect)

lemma increment_post_count_effect:
  "increment_post_count w = (r, w1) \<Longrightarrow>
     r = Inr (fault_at 0 w = None) \<and>
     post_counts w1 = (if fault_at 0 w = None
                       then upsert_count (current_month w) (post_counts w) else post_counts w) \<and>
     log w1 = log w @ (case fault_at 0 w of None \<Rightarrow> []
                       | Some e \<Rightarrow> [LogDatabaseError e, LogIncrementFailed e]) \<and>
     posted_tweets w1 = posted_tweets w \<and> events w1 = events w \<and>
     current_month w1 = current_month w \<and> stdin w1 = stdin w \<and> platform w1 = platform w \<and>
     db_faults w1 = tl (db_faults w)"
  by (auto simp: increment_post_count_def get_current_month_def
      split: prod.splits sum.splits option.splits exn.splits dest!: get_db_connection_effect)

lemma record_posted_tweet_effect:
  "record_posted_tweet cfg c t w = (r, w1) \<Longrightarrow>
     r = Inr (fault_at 0 w = None) \<and>
     posted_tweets w1 = (if fault_at 0 w = None
                         then insert_or_ignore (get_content_hash cfg c) t (posted_tweets w)
                         else posted_tweets w) \<and>
     log w1 = log w @ (case fault_at 0 w of None \<Rightarrow> []
                       | Some e \<Rightarrow> [LogDatabaseError e, LogRecordFailed e]) \<and>
     post_counts w1 = post_counts w \<and> events w1 = events w \<and>
     current_month w1 = current_month w \<and> stdin w1 = stdin w \<and> platform w1 = platform w \<and>
     db_faults w1 = tl (db_faults w)"
  by (auto simp: record_posted_tweet_def Let_def
      split: prod.splits sum.splits option.splits exn.splits dest!: get_db_connection_effect)

lemma post_tweet_except_effect:
  "post_tweet_except e w = (r, w1) \<Longrightarrow>
     r = None \<and> post_counts w1 = post_counts w \<and> posted_tweets w1 = posted_tweets w \<and>
     events w1 = events w \<and> current_month w1 = current_month w \<and>
     stdin w1 = stdin w \<and> platform w1 = platform w \<and> db_faults w1 = db_faults w"
  by (auto simp: post_tweet_except_def Let_def split: if_splits)

lemma create_tweet_effect:
  "create_tweet text w = (r, w1) \<Longrightarrow>
     post_counts w1 = post_counts w \<and> posted_tweets w1 = posted_tweets w \<and>
     current_month w1 = current_month w \<and> stdin w1 = stdin w \<and> db_faults w1 = db_faults w \<and>
     (case r of
        Inl e \<Rightarrow> events w1 = events w \<and> (\<forall>resp ps. platform w \<noteq> Created resp # ps)
      | Inr resp \<Rightarrow> events w1 = events w @ [EvTweet (current_month w) text] \<and>
                    platform w = Created resp # platform w1)"
  by (auto simp: create_tweet_def split: list.splits api_outcome.splits)

lemma input_effect:
  "input w = (r, w1) \<Longrightarrow>
     post_counts w1 = post_counts w \<and> posted_tweets w1 = posted_tweets w \<and>
     current_month w1 = current_month w \<and> platform w1 = platform w \<and>
     db_faults w1 = db_faults w \<and>
     (case r of
        Inl e \<Rightarrow> events w1 = events w \<and> stdin w = []
      | Inr line \<Rightarrow> events w1 = events w @ [EvInput line] \<and> stdin w = line # stdin w1)"
  by (auto simp: input_def split: list.splits)

lemma get_x_client_Inr: "get_x_client cfg = Inr u \<longleftrightarrow> validate_x_credentials cfg = Inr True"
  by (auto simp: get_x_client_def validate_x_credentials_def Let_def split: sum.splits)

lemma get_x_client_Inl: "get_x_client cfg = Inl e \<Longrightarrow> validate_x_credentials cfg \<noteq> Inr True"
  by (auto simp: get_x_client_def split: sum.splits)

lemma post_the_tweet_None:
  "post_the_tweet cfg m w = (None, w') \<Longrightarrow>
     post_counts w' = post_counts w \<and> posted_tweets w' = posted_tweets w \<and>
     events w' = events w \<and> current_month w' = current_month w \<and> stdin w' = stdin w \<and>
     (validate_x_credentials cfg = Inr True \<longrightarrow> (\<forall>resp ps. platform w \<noteq> Created resp # ps))"
  apply (simp add: post_the_tweet_def Let_def split: sum.splits prod.splits)
     apply (auto dest!: post_tweet_except_effect create_tweet_effect
      increment_post_count_effect record_posted_tweet_effect get_x_client_Inl
      simp: get_x_client_Inr)
  done

lemma post_the_tweet_Some:
  "post_the_tweet cfg m w = (Some r, w') \<Longrightarrow>
     events w' = events w @ [EvTweet (current_month w) m] \<and>
     post_counts w' = (if fault_at 0 w = None
                       then upsert_count (current_month w) (post_counts w) else post_counts w) \<and>
     posted_tweets w' = (if fault_at (Suc 0) w = None
                         then insert_or_ignore (get_content_hash cfg m) (data_id r) (posted_tweets w)
                         else posted_tweets w) \<and>
     current_month w' = current_month w \<and> stdin w' = stdin w \<and>
     validate_x_credentials cfg = Inr True \<and> platform w = Created r # platform w'"
  apply (simp add: post_the_tweet_def Let_def split: sum.splits prod.splits)
     apply (auto dest!: post_tweet_except_effect create_tweet_effect
      increment_post_count_effect record_posted_tweet_effect
      simp: get_x_client_Inr fault_at_def nth_fault_tl)
  done

text \<open>A call that returns \<open>None\<close> has sent nothing and written nothing.\<close>

lemma post_tweet_None:
  "post_tweet cfg m ra w = (None, w') \<Longrightarrow>
     post_counts w' = post_counts w \<and> posted_tweets w' = posted_tweets w \<and>
     current_month w' = current_month w \<and>
     (events w' = events w \<or>
      (ra \<and> (\<exists>line rest. stdin w = line # rest \<and> events w' = events w @ [EvInput line])))"
  apply (simp add: post_tweet_def Let_def split: if_splits sum.splits prod.splits bool.splits)
     apply (auto dest!: post_tweet_except_effect get_post_count_effect has_posted_before_effect
      input_effect post_the_tweet_None)
  done

text \<open>A call that returns the response has passed every check and sent the message once.\<close>

lemma post_tweet_Some:
  "post_tweet cfg m ra w = (Some r, w') \<Longrightarrow>
     m \<noteq> [] \<and> strip m \<noteq> [] \<and> length m \<le> 280 \<and>
     fault_at 0 w = None \<and> count_for (current_month w) w < RATE_LIMIT_MAX cfg \<and>
     fault_at (Suc 0) w = None \<and> map_of (posted_tweets w) (get_content_hash cfg m) = None \<and>
     (ra \<longrightarrow> says_yes w) \<and>
     events w' = events w @ (if ra then [EvInput (hd (stdin w))] else []) @
                 [EvTweet (current_month w) m] \<and>
     post_counts w' = (if fault_at (Suc (Suc 0)) w = None
                       then upsert_count (current_month w) (post_counts w) else post_counts w) \<and>
     posted_tweets w' = (if fault_at (Suc (Suc (Suc 0))) w = None
                         then insert_or_ignore (get_content_hash cfg m) (data_id r) (posted_tweets w)
                         else posted_tweets w) \<and>
     current_month w' = current_month w \<and>
     validate_x_credentials cfg = Inr True \<and> platform w = Created r # platform w'"
  apply (simp add: post_tweet_def Let_def split: if_splits sum.splits prod.splits bool.splits)
     apply (auto dest!: post_tweet_except_effect get_post_count_effect has_posted_before_effect
      input_effect post_the_tweet_Some
      simp: fault_at_def nth_fault_tl says_yes_def split: option.splits)
  done

lemma generate_tweet_frame:
  "posted_tweets (snd (generate_tweet cfg topic w)) = posted_tweets w \<and>
   post_counts (snd (generate_tweet cfg topic w)) = post_counts w \<and>
   events (snd (generate_tweet cfg topic w)) = events w"
  by (auto simp: generate_tweet_def generate_tweet_except_def generate_content_def Let_def
      split: sum.splits list.splits gen_outcome.splits option.splits)

lemma distinct_insert_or_ignore:
  "distinct (map fst rows) \<Longrightarrow> distinct (map fst (insert_or_ignore h t rows))"
  by (auto simp: insert_or_ignore_def map_of_eq_None_iff)

lemma insert_or_ignore_twice:
  "insert_or_ignore h t' (insert_or_ignore h t rows) = insert_or_ignore h t rows"
  by (auto simp: insert_or_ignore_def map_of_eq_None_iff)

lemma post_tweet_unique:
  assumes "unique_hashes w"
  shows "unique_hashes (snd (post_tweet cfg message ra w))"
proof -
  obtain r w' where res: "post_tweet cfg message ra w = (r, w')"
    by (cases "post_tweet cfg message ra w")
  show ?thesis
  proof (cases r)
    case None
    from post_tweet_None [OF res [unfolded None]] assms show ?thesis
      by (simp add: res unique_hashes_def)
  next
    case (Some resp)
    from post_tweet_Some [OF res [unfolded Some]] assms show ?thesis
      by (simp add: res unique_hashes_def distinct_insert_or_ignore)
  qed
qed

lemma run_unique: "unique_hashes w \<Longrightarrow> unique_hashes (run cfg calls w)"
proof (induction calls arbitrary: w)
  case Nil
  then show ?case by simp
next
  case (Cons call calls)
  obtain month message ra where call: "call = (month, message, ra)"
    by (cases call)
  from Cons.prems have "unique_hashes (w\<lparr>current_month := month\<rparr>)"
    by (simp add: unique_hashes_def)
  then have "unique_hashes (snd (post_tweet cfg message ra (w\<lparr>current_month := month\<rparr>)))"
    by (rule post_tweet_unique)
  then show ?case
    by (simp add: call Cons.IH)
qed

text \<open>The converse of \<open>post_tweet_Some\<close>: what is enough for the message to go out.\<close>

lemma strip_nonspace:
  assumes "\<not> (\<forall>c\<in>set s. isspace c)"
  shows "strip s \<noteq> []"
proof -
  let ?t = "dropWhile isspace s"
  from assms have t: "?t \<noteq> []"
    by simp
  then have "\<not> isspace (hd ?t)"
    by (rule hd_dropWhile)
  moreover from t have "hd ?t \<in> set (rev ?t)"
    by simp
  ultimately have "dropWhile isspace (rev ?t) \<noteq> []"
    by (auto simp del: set_rev)
  then show ?thesis
    by (simp add: strip_def strip_chars_def)
qed

lemma post_the_tweet_accepts:
  assumes "validate_x_credentials cfg = Inr True" and "platform w = Created r # ps"
  shows "fst (post_the_tweet cfg m w) = Some r"
proof -
  from assms(1) have client: "get_x_client cfg = Inr ()"
    by (simp add: get_x_client_Inr)
  obtain w1 where sent: "create_tweet m w = (Inr r, w1)"
    using assms(2) by (simp add: create_tweet_def)
  obtain r2 w2 where inc: "increment_post_count w1 = (r2, w2)"
    by (cases "increment_post_count w1")
  obtain r3 w3 where rec: "record_posted_tweet cfg m (data_id r) w2 = (r3, w3)"
    by (cases "record_posted_tweet cfg m (data_id r) w2")
  from increment_post_count_effect [OF inc] obtain b2 where r2: "r2 = Inr b2"
    by simp
  from record_posted_tweet_effect [OF rec] obtain b3 where r3: "r3 = Inr b3"
    by simp
  show ?thesis
    by (simp add: post_the_tweet_def client sent inc rec r2 r3)
qed

lemma post_tweet_accepts:
  assumes valid: "\<not> (\<forall>c\<in>set message. isspace c)" "length message \<le> 280"
    and quota: "count_for (current_month w) w < RATE_LIMIT_MAX cfg"
    and reads: "fault_at 0 w = None" "fault_at 1 w = None"
    and new: "get_content_hash cfg message \<notin> fst ` set (posted_tweets w)"
    and yes: "require_approval \<longrightarrow> says_yes w"
    and creds: "validate_x_credentials cfg = Inr True"
    and accepts: "platform w = Created r # ps"
  shows "fst (post_tweet cfg message require_approval w) = Some r"
proof -
  from valid(1) have nonempty: "message \<noteq> []" "strip message \<noteq> []"
    by (auto simp: strip_nonspace)
  obtain r1 w1 where g: "get_post_count w = (r1, w1)"
    by (cases "get_post_count w")
  note e1 = get_post_count_effect [OF g]
  from e1 reads(1) have r1: "r1 = Inr (count_for (current_month w) w)"
    by simp
  obtain r2 w2 where h: "has_posted_before cfg message w1 = (r2, w2)"
    by (cases "has_posted_before cfg message w1")
  note e2 = has_posted_before_effect [OF h]
  from e1 reads(2) have "fault_at 0 w1 = None"
    by (simp add: fault_at_def nth_fault_tl)
  moreover from new e1 have "map_of (posted_tweets w1) (get_content_hash cfg message) = None"
    by (simp add: map_of_eq_None_iff)
  ultimately have r2: "r2 = Inr False"
    using e2 by simp
  have start: "post_tweet cfg message require_approval w =
      (if require_approval then
         (case input w2 of
            (Inl e, w3) \<Rightarrow> post_tweet_except e w3
          | (Inr line, w3) \<Rightarrow>
              (let response = lower (strip line)
               in if response \<noteq> ''y'' then (None, w3) else post_the_tweet cfg message w3))
       else post_the_tweet cfg message w2)"
    using nonempty valid(2) quota by (simp add: post_tweet_def g r1 h r2)
  from e1 e2 accepts have p2: "platform w2 = Created r # ps"
    by simp
  show ?thesis
  proof (cases require_approval)
    case False
    with start post_the_tweet_accepts [OF creds p2] show ?thesis
      by simp
  next
    case True
    with yes e1 e2 obtain line rest where line: "stdin w2 = line # rest" "lower (strip line) = ''y''"
      by (auto simp: says_yes_def split: list.splits)
    obtain w3 where i: "input w2 = (Inr line, w3)"
      using line(1) by (simp add: input_def)
    from input_effect [OF i] p2 have "platform w3 = Created r # ps"
      by simp
    from post_the_tweet_accepts [OF creds this] start True i line(2) show ?thesis
      by simp
  qed
qed

section \<open>The tally and the tweets sent\<close>

lemma tweets_of_append: "tweets_of (es @ fs) = tweets_of es @ tweets_of fs"
  by (induction es rule: tweets_of.induct) auto

lemma map_of_upsert_count:
  "map_of (upsert_count m rows) m' =
     (if m' = m then Some (case map_of rows m of None \<Rightarrow> 1 | Some c \<Rightarrow> c + 1)
      else map_of rows m')"
  by (induction rows) auto

lemma upsert_count_new: "m \<notin> fst ` set rows \<Longrightarrow> upsert_count m rows = rows @ [(m, 1)]"
  by (induction rows) auto

lemma count_for_upsert:
  "post_counts w' = upsert_count cm (post_counts w) \<Longrightarrow>
     count_for m w' = count_for m w + (if m = cm then 1 else 0)"
  by (simp add: count_for_def map_of_upsert_count split: option.splits)

lemma nth_fault_None: "\<forall>f\<in>set fs. f = None \<Longrightarrow> nth_fault fs n = None"
  by (induction fs n rule: nth_fault.induct) auto

lemma in_set_tl: "x \<in> set (tl xs) \<Longrightarrow> x \<in> set xs"
  by (cases xs) auto

lemma post_the_tweet_faults:
  "post_the_tweet cfg m w = (r, w') \<Longrightarrow> set (db_faults w') \<subseteq> set (db_faults w)"
  apply (simp add: post_the_tweet_def Let_def split: sum.splits prod.splits)
     apply (auto dest!: post_tweet_except_effect create_tweet_effect
      increment_post_count_effect record_posted_tweet_effect in_set_tl)
  done

lemma post_tweet_faults:
  "post_tweet cfg m ra w = (r, w') \<Longrightarrow> set (db_faults w') \<subseteq> set (db_faults w)"
  apply (simp add: post_tweet_def Let_def split: if_splits sum.splits prod.splits bool.splits)
     apply (auto dest!: post_tweet_except_effect get_post_count_effect has_posted_before_effect
      input_effect post_the_tweet_faults in_set_tl)
  done


lemma tweets_in_append:
  "events w' = events w @ es \<Longrightarrow>
     tweets_in m w' = tweets_in m w + int (length (filter (\<lambda>p. fst p = m) (tweets_of es)))"
  by (simp add: tweets_in_def transmitted_def tweets_of_append)

lemma post_tweet_tally:
  assumes "post_tweet cfg message ra w = (r, w')"
  shows "tweets_in m w' =
           tweets_in m w + (if r \<noteq> None \<and> m = current_month w then 1 else 0) \<and>
         count_for m w' =
           count_for m w +
             (if r \<noteq> None \<and> m = current_month w \<and> fault_at 2 w = None then 1 else 0)"
proof (cases r)
  case None
  from post_tweet_None [OF assms [unfolded None]]
  have "post_counts w' = post_counts w" and "tweets_of (events w') = tweets_of (events w)"
    by (auto simp: tweets_of_append)
  then show ?thesis
    by (simp add: None count_for_def tweets_in_def transmitted_def)
next
  case (Some resp)
  note facts = post_tweet_Some [OF assms [unfolded Some]]
  from facts have ev: "events w' = events w @
      ((if ra then [EvInput (hd (stdin w))] else []) @ [EvTweet (current_month w) message])"
    by simp
  have t: "tweets_in m w' = tweets_in m w + (if m = current_month w then 1 else 0)"
    by (simp add: tweets_in_append [OF ev] tweets_of_append)
  have c: "count_for m w' =
      count_for m w + (if m = current_month w \<and> fault_at 2 w = None then 1 else 0)"
  proof (cases "fault_at 2 w = None")
    case True
    with facts have "post_counts w' = upsert_count (current_month w) (post_counts w)"
      by (simp add: numeral_2_eq_2)
    from count_for_upsert [OF this] True show ?thesis by simp
  next
    case False
    with facts have "post_counts w' = post_counts w"
      by (auto simp: numeral_2_eq_2)
    with False show ?thesis by (simp add: count_for_def)
  qed
  from t c show ?thesis by (simp add: Some)
qed

lemma run_tally_le:
  "\<forall>m. count_for m w \<le> tweets_in m w \<Longrightarrow>
     count_for m (run cfg calls w) \<le> tweets_in m (run cfg calls w)"
proof (induction calls arbitrary: w)
  case Nil
  then show ?case by simp
next
  case (Cons call calls)
  obtain month message ra where call: "call = (month, message, ra)"
    by (cases call)
  let ?w = "w\<lparr>current_month := month\<rparr>"
  obtain r w' where res: "post_tweet cfg message ra ?w = (r, w')"
    by (cases "post_tweet cfg message ra ?w")
  have "\<forall>m. count_for m w' \<le> tweets_in m w'"
  proof
    fix m
    from Cons.prems have "count_for m ?w \<le> tweets_in m ?w"
      by (simp add: count_for_def tweets_in_def transmitted_def)
    with post_tweet_tally [OF res, of m] show "count_for m w' \<le> tweets_in m w'"
      by (auto split: if_splits)
  qed
  from Cons.IH [OF this] show ?case
    by (simp add: call res)
qed

lemma run_tally_eq:
  "\<forall>f\<in>set (db_faults w). f = None \<Longrightarrow> \<forall>m. count_for m w = tweets_in m w \<Longrightarrow>
     count_for m (run cfg calls w) = tweets_in m (run cfg calls w)"
proof (induction calls arbitrary: w)
  case Nil
  then show ?case by simp
next
  case (Cons call calls)
  obtain month message ra where call: "call = (month, message, ra)"
    by (cases call)
  let ?w = "w\<lparr>current_month := month\<rparr>"
  obtain r w' where res: "post_tweet cfg message ra ?w = (r, w')"
    by (cases "post_tweet cfg message ra ?w")
  from Cons.prems(1) have quiet: "\<forall>f\<in>set (db_faults ?w). f = None"
    by simp
  then have "fault_at 2 ?w = None"
    by (simp add: fault_at_def nth_fault_None)
  have "\<forall>m. count_for m w' = tweets_in m w'"
  proof
    fix m
    from Cons.prems(2) have "count_for m ?w = tweets_in m ?w"
      by (simp add: count_for_def tweets_in_def transmitted_def)
    with post_tweet_tally [OF res, of m] \<open>fault_at 2 ?w = None\<close>
    show "count_for m w' = tweets_in m w'"
      by simp
  qed
  moreover from post_tweet_faults [OF res] quiet have "\<forall>f\<in>set (db_faults w'). f = None"
    by blast
  ultimately show ?case
    using Cons.IH [of w'] by (simp add: call res)
qed

section \<open>The claims\<close>


lemma strip_all_space: "(\<forall>c\<in>set s. isspace c) \<Longrightarrow> strip s = []"
proof -
  assume "\<forall>c\<in>set s. isspace c"
  then have d: "dropWhile isspace s = []"
    by simp
  show ?thesis
    unfolding strip_def strip_chars_def d by simp
qed

text \<open>
  C1. Whatever the message and whether or not approval is asked for: when
  \<open>get_post_count\<close> returns a count that is at least \<open>RATE_LIMIT_MAX\<close>, \<open>post_tweet\<close>
  returns \<open>None\<close>, nothing is sent (no event at all happens and the platform has not been
  called), and the tables \<open>post_counts\<close> and \<open>posted_tweets\<close> are as before.
\<close>

theorem quota_blocks_posting:
  assumes "get_post_count w = (Inr c, w1)" and "RATE_LIMIT_MAX cfg \<le> c"
  shows "fst (post_tweet cfg message require_approval w) = None \<and>
         events (snd (post_tweet cfg message require_approval w)) = events w \<and>
         platform (snd (post_tweet cfg message require_approval w)) = platform w \<and>
         post_counts (snd (post_tweet cfg message require_approval w)) = post_counts w \<and>
         posted_tweets (snd (post_tweet cfg message require_approval w)) = posted_tweets w"
proof -
  from get_post_count_effect [OF assms(1)]
  have same: "post_counts w1 = post_counts w" "posted_tweets w1 = posted_tweets w"
    "events w1 = events w" "platform w1 = platform w"
    by simp_all
  show ?thesis
    using assms(2) by (simp add: post_tweet_def assms(1) same)
qed

theorem quota_blocks_posting_witness:
  "fst (post_tweet example_config ''hello'' False full_month_world) = None \<and>
   events (snd (post_tweet example_config ''hello'' False full_month_world)) = [] \<and>
   platform (snd (post_tweet example_config ''hello'' False full_month_world)) =
     [Created (Response ''17'')] \<and>
   post_counts (snd (post_tweet example_config ''hello'' False full_month_world)) =
     [(''2026-01'', 500)] \<and>
   posted_tweets (snd (post_tweet example_config ''hello'' False full_month_world)) = []"
proof -
  have a: "get_post_count full_month_world = (Inr 500, full_month_world)"
    by (simp add: get_post_count_def get_db_connection_def full_month_world_def fresh_world_def
        get_current_month_def)
  have b: "RATE_LIMIT_MAX example_config \<le> 500"
    by (simp add: example_config_def)
  show ?thesis
    using quota_blocks_posting [OF a b, of "''hello''" False]
    by (simp add: full_month_world_def fresh_world_def)
qed

text \<open>
  C6. \<open>increment_post_count\<close> and \<open>record_posted_tweet\<close> never raise: each returns a
  boolean, \<open>True\<close> exactly when sqlite did not fail in its connection block. When sqlite
  fails with the message \<open>e\<close>, the error is logged, by the connection manager and by the
  function itself, and the table the function writes is left as it was.
\<close>

theorem db_writes_catch_and_log:
  "fst (increment_post_count w) = Inr (fault_at 0 w = None) \<and>
   fst (record_posted_tweet cfg content tweet_id w) = Inr (fault_at 0 w = None) \<and>
   (\<forall>e. fault_at 0 w = Some e \<longrightarrow>
      log (snd (increment_post_count w)) = log w @ [LogDatabaseError e, LogIncrementFailed e] \<and>
      post_counts (snd (increment_post_count w)) = post_counts w \<and>
      log (snd (record_posted_tweet cfg content tweet_id w)) =
        log w @ [LogDatabaseError e, LogRecordFailed e] \<and>
      posted_tweets (snd (record_posted_tweet cfg content tweet_id w)) = posted_tweets w)"
proof -
  obtain r1 w1 where 1: "increment_post_count w = (r1, w1)"
    by (cases "increment_post_count w")
  obtain r2 w2 where 2: "record_posted_tweet cfg content tweet_id w = (r2, w2)"
    by (cases "record_posted_tweet cfg content tweet_id w")
  from increment_post_count_effect [OF 1] record_posted_tweet_effect [OF 2]
  show ?thesis
    by (simp add: 1 2)
qed

theorem db_writes_catch_and_log_witness:
  "fst (increment_post_count broken_db_world) = Inr False \<and>
   fst (record_posted_tweet example_config ''hello'' ''17'' broken_db_world) = Inr False \<and>
   log (snd (increment_post_count broken_db_world)) =
     [LogDatabaseError ''disk I/O error'', LogIncrementFailed ''disk I/O error''] \<and>
   log (snd (record_posted_tweet example_config ''hello'' ''17'' broken_db_world)) =
     [LogDatabaseError ''disk I/O error'', LogRecordFailed ''disk I/O error''] \<and>
   fst (increment_post_count fresh_world) = Inr True \<and>
   fst (record_posted_tweet example_config ''hello'' ''17'' fresh_world) = Inr True"
  using db_writes_catch_and_log [of broken_db_world example_config "''hello''" "''17''"]
    db_writes_catch_and_log [of fresh_world example_config "''hello''" "''17''"]
  by (simp add: broken_db_world_def fresh_world_def fault_at_def)

text \<open>
  C8. A message that is empty or made of whitespace only, and a message of more than 280
  characters, makes \<open>post_tweet\<close> return \<open>None\<close> and leave the whole state as it was: no
  connection is opened, the platform is not called, no table changes.
\<close>

theorem invalid_message_rejected:
  "(\<forall>c\<in>set message. isspace c) \<or> 280 < length message \<Longrightarrow>
     post_tweet cfg message require_approval w = (None, w)"
  by (auto simp: post_tweet_def strip_all_space)

theorem invalid_message_rejected_witness:
  "post_tweet example_config [] True fresh_world = (None, fresh_world) \<and>
   post_tweet example_config ''   '' True fresh_world = (None, fresh_world) \<and>
   post_tweet example_config (replicate 281 CHR ''a'') False fresh_world = (None, fresh_world)"
proof -
  have a: "\<forall>c\<in>set []. isspace c" by simp
  have b: "\<forall>c\<in>set ''   ''. isspace c" by (simp add: isspace_def)
  have c: "280 < length (replicate 281 CHR ''a'')" by simp
  show ?thesis
    using invalid_message_rejected [OF disjI1, OF a] invalid_message_rejected [OF disjI1, OF b]
      invalid_message_rejected [OF disjI2, OF c]
    by simp
qed

text \<open>
  C2. With \<open>require_approval = True\<close>, what a call of \<open>post_tweet\<close> adds to the events is
  nothing, or the answered prompt alone, or the answered prompt followed by the tweet, and
  in the last case the answer, stripped and lowercased, is \<open>y\<close>: no tweet goes out before
  the prompt is answered. When the next line of input is not such a \<open>y\<close> (or there is no
  line), the call returns \<open>None\<close>, sends no tweet and leaves both tables as they were.
\<close>

theorem approval_gate:
  "(\<exists>new. events (snd (post_tweet cfg message True w)) = events w @ new \<and>
      (new = [] \<or> (\<exists>line. new = [EvInput line]) \<or>
       (\<exists>line. lower (strip line) = ''y'' \<and>
          new = [EvInput line, EvTweet (current_month w) message]))) \<and>
   (\<not> says_yes w \<longrightarrow>
      fst (post_tweet cfg message True w) = None \<and>
      transmitted (snd (post_tweet cfg message True w)) = transmitted w \<and>
      post_counts (snd (post_tweet cfg message True w)) = post_counts w \<and>
      posted_tweets (snd (post_tweet cfg message True w)) = posted_tweets w)"
proof -
  obtain r w' where res: "post_tweet cfg message True w = (r, w')"
    by (cases "post_tweet cfg message True w")
  show ?thesis
  proof (cases r)
    case None
    from post_tweet_None [OF res [unfolded None]]
    show ?thesis
      by (auto simp: res None transmitted_def tweets_of_append)
  next
    case (Some resp)
    from post_tweet_Some [OF res [unfolded Some]]
    show ?thesis
      by (auto simp: res Some says_yes_def split: list.splits)
  qed
qed

theorem approval_gate_witness:
  "\<not> says_yes declining_world \<and>
   fst (post_tweet example_config ''hello'' True declining_world) = None \<and>
   transmitted (snd (post_tweet example_config ''hello'' True declining_world)) = [] \<and>
   post_counts (snd (post_tweet example_config ''hello'' True declining_world)) = [] \<and>
   posted_tweets (snd (post_tweet example_config ''hello'' True declining_world)) = []"
proof -
  have a: "\<not> says_yes declining_world"
    by (simp add: says_yes_def declining_world_def fresh_world_def strip_def strip_chars_def
        isspace_def lower_def lower_char_def)
  show ?thesis
    using a approval_gate [of example_config "''hello''" declining_world]
    by (simp add: declining_world_def fresh_world_def transmitted_def)
qed

text \<open>
  C3. When the content hash of the message is already in \<open>posted_tweets\<close>, \<open>post_tweet\<close>
  returns \<open>None\<close>; nothing is sent (no event happens, the platform is not called) and
  both tables are as before.
\<close>

theorem duplicate_content_skipped:
  assumes "get_content_hash cfg message \<in> fst ` set (posted_tweets w)"
  shows "fst (post_tweet cfg message require_approval w) = None \<and>
         events (snd (post_tweet cfg message require_approval w)) = events w \<and>
         platform (snd (post_tweet cfg message require_approval w)) = platform w \<and>
         post_counts (snd (post_tweet cfg message require_approval w)) = post_counts w \<and>
         posted_tweets (snd (post_tweet cfg message require_approval w)) = posted_tweets w"
proof -
  from assms have known: "map_of (posted_tweets w) (get_content_hash cfg message) \<noteq> None"
    by (simp add: map_of_eq_None_iff)
  obtain r w' where res: "post_tweet cfg message require_approval w = (r, w')"
    by (cases "post_tweet cfg message require_approval w")
  have "r = None \<and> events w' = events w \<and> platform w' = platform w \<and>
        post_counts w' = post_counts w \<and> posted_tweets w' = posted_tweets w"
  proof (cases "message = [] \<or> strip message = [] \<or> 280 < length message")
    case True
    with res have "(r, w') = (None, w)"
      by (auto simp: post_tweet_def split: if_splits)
    then show ?thesis by simp
  next
    case valid: False
    obtain r1 w1 where g: "get_post_count w = (r1, w1)"
      by (cases "get_post_count w")
    note e1 = get_post_count_effect [OF g]
    show ?thesis
    proof (cases r1)
      case (Inl e)
      with res valid g have "post_tweet_except e w1 = (r, w')"
        by (simp add: post_tweet_def)
      from post_tweet_except_effect [OF this] e1 show ?thesis by simp
    next
      case (Inr c)
      show ?thesis
      proof (cases "RATE_LIMIT_MAX cfg \<le> c")
        case True
        with res valid g Inr have "(r, w') = (None, w1)"
          by (simp add: post_tweet_def)
        with e1 show ?thesis by simp
      next
        case quota: False
        obtain r2 w2 where h: "has_posted_before cfg message w1 = (r2, w2)"
          by (cases "has_posted_before cfg message w1")
        note e2 = has_posted_before_effect [OF h]
        from e1 known have "map_of (posted_tweets w1) (get_content_hash cfg message) \<noteq> None"
          by simp
        with e2 have "r2 = Inr True \<or> (\<exists>e. r2 = Inl e)"
          by (cases "fault_at 0 w1") simp_all
        then show ?thesis
        proof
          assume "r2 = Inr True"
          with res valid g Inr quota h have "(r, w') = (None, w2)"
            by (simp add: post_tweet_def)
          with e1 e2 show ?thesis by simp
        next
          assume "\<exists>e. r2 = Inl e"
          then obtain e where "r2 = Inl e" ..
          with res valid g Inr quota h have "post_tweet_except e w2 = (r, w')"
            by (simp add: post_tweet_def)
          from post_tweet_except_effect [OF this] e1 e2 show ?thesis by simp
        qed
      qed
    qed
  qed
  then show ?thesis by (simp add: res)
qed

theorem duplicate_content_skipped_witness:
  "fst (post_tweet example_config ''hello'' False posted_world) = None \<and>
   events (snd (post_tweet example_config ''hello'' False posted_world)) = [] \<and>
   platform (snd (post_tweet example_config ''hello'' False posted_world)) =
     [Created (Response ''17'')] \<and>
   post_counts (snd (post_tweet example_config ''hello'' False posted_world)) = [] \<and>
   posted_tweets (snd (post_tweet example_config ''hello'' False posted_world)) =
     [(''hello'', ''16'')]"
proof -
  have a: "get_content_hash example_config ''hello'' \<in> fst ` set (posted_tweets posted_world)"
    by (simp add: get_content_hash_def example_config_def posted_world_def encode_def
        encode_char_def)
  show ?thesis
    using duplicate_content_skipped [OF a, of False]
    by (simp add: posted_world_def fresh_world_def)
qed

text \<open>
  C5. After \<open>record_posted_tweet(content, tweet_id)\<close> has returned \<open>True\<close>,
  \<open>has_posted_before(content)\<close> returns \<open>True\<close>; the one other thing it can do is
  raise, when sqlite fails in the lookup's own connection block. It never returns
  \<open>False\<close>.
\<close>

theorem record_then_lookup:
  assumes "record_posted_tweet cfg content tweet_id w = (Inr True, w1)"
  shows "fst (has_posted_before cfg content w1) =
           (case fault_at 0 w1 of None \<Rightarrow> Inr True | Some e \<Rightarrow> Inl (DatabaseError e))"
proof -
  from record_posted_tweet_effect [OF assms]
  have "posted_tweets w1 =
          insert_or_ignore (get_content_hash cfg content) tweet_id (posted_tweets w)"
    by (simp split: if_splits)
  then have present: "map_of (posted_tweets w1) (get_content_hash cfg content) \<noteq> None"
    by (simp add: insert_or_ignore_def map_of_eq_None_iff)
  obtain r w2 where look: "has_posted_before cfg content w1 = (r, w2)"
    by (cases "has_posted_before cfg content w1")
  from has_posted_before_effect [OF look] present show ?thesis
    by (simp add: look split: option.splits)
qed

theorem record_then_lookup_witness:
  "fst (has_posted_before example_config ''hello''
          (snd (record_posted_tweet example_config ''hello'' ''17'' fresh_world))) = Inr True"
proof -
  have a: "record_posted_tweet example_config ''hello'' ''17'' fresh_world =
             (Inr True, snd (record_posted_tweet example_config ''hello'' ''17'' fresh_world))"
    by (simp add: record_posted_tweet_def get_db_connection_def fresh_world_def)
  have b: "fault_at 0 (snd (record_posted_tweet example_config ''hello'' ''17'' fresh_world)) = None"
    by (simp add: record_posted_tweet_def get_db_connection_def fresh_world_def fault_at_def)
  show ?thesis
    using record_then_lookup [OF a] by (simp add: b)
qed

text \<open>
  C7. When \<open>post_counts\<close> has no row for the current month, \<open>get_post_count\<close> returns 0
  (it raises only when sqlite fails in its connection block). With a positive
  \<open>RATE_LIMIT_MAX\<close> the quota check then lets the call through: a valid message that is
  not a duplicate, approved where approval is asked for, is sent and the response is
  returned, given that the two lookups reach the database, the credentials are set and
  the platform accepts the tweet.
\<close>

theorem fresh_month_permits_posting:
  assumes "current_month w \<notin> fst ` set (post_counts w)"
  shows "fst (get_post_count w) =
           (case fault_at 0 w of None \<Rightarrow> Inr 0 | Some e \<Rightarrow> Inl (DatabaseError e)) \<and>
         (0 < RATE_LIMIT_MAX cfg \<and>
          \<not> (\<forall>c\<in>set message. isspace c) \<and> length message \<le> 280 \<and>
          fault_at 0 w = None \<and> fault_at 1 w = None \<and>
          get_content_hash cfg message \<notin> fst ` set (posted_tweets w) \<and>
          (require_approval \<longrightarrow> says_yes w) \<and>
          validate_x_credentials cfg = Inr True \<and> platform w = Created r # ps \<longrightarrow>
            fst (post_tweet cfg message require_approval w) = Some r \<and>
            transmitted (snd (post_tweet cfg message require_approval w)) =
              transmitted w @ [(current_month w, message)])"
proof -
  from assms have "map_of (post_counts w) (current_month w) = None"
    by (simp add: map_of_eq_None_iff)
  then have zero: "count_for (current_month w) w = 0"
    by (simp add: count_for_def)
  obtain r1 w1 where g: "get_post_count w = (r1, w1)"
    by (cases "get_post_count w")
  from get_post_count_effect [OF g] zero have first: "fst (get_post_count w) =
      (case fault_at 0 w of None \<Rightarrow> Inr 0 | Some e \<Rightarrow> Inl (DatabaseError e))"
    by (simp add: g split: option.splits)
  have second: "fst (post_tweet cfg message require_approval w) = Some r \<and>
      transmitted (snd (post_tweet cfg message require_approval w)) =
        transmitted w @ [(current_month w, message)]"
    if h: "0 < RATE_LIMIT_MAX cfg" "\<not> (\<forall>c\<in>set message. isspace c)" "length message \<le> 280"
      "fault_at 0 w = None" "fault_at 1 w = None"
      "get_content_hash cfg message \<notin> fst ` set (posted_tweets w)"
      "require_approval \<longrightarrow> says_yes w"
      "validate_x_credentials cfg = Inr True" "platform w = Created r # ps"
  proof -
    from zero h(1) have q: "count_for (current_month w) w < RATE_LIMIT_MAX cfg"
      by simp
    have ok: "fst (post_tweet cfg message require_approval w) = Some r"
      by (rule post_tweet_accepts [OF h(2) h(3) q h(4) h(5) h(6) h(7) h(8) h(9)])
    then obtain w' where res: "post_tweet cfg message require_approval w = (Some r, w')"
      by (cases "post_tweet cfg message require_approval w") simp
    from post_tweet_Some [OF res] show ?thesis
      by (simp add: res transmitted_def tweets_of_append)
  qed
  from first second show ?thesis
    by blast
qed

theorem fresh_month_permits_posting_witness:
  "fst (get_post_count fresh_world) = Inr 0 \<and>
   fst (post_tweet example_config ''hello'' True fresh_world) = Some (Response ''17'') \<and>
   transmitted (snd (post_tweet example_config ''hello'' True fresh_world)) =
     [(''2026-01'', ''hello'')]"
proof -
  have a: "current_month fresh_world \<notin> fst ` set (post_counts fresh_world)"
    by (simp add: fresh_world_def)
  have b: "0 < RATE_LIMIT_MAX example_config"
    by (simp add: example_config_def)
  have c: "\<not> (\<forall>c\<in>set ''hello''. isspace c)"
    by (simp add: isspace_def)
  have d: "fault_at 0 fresh_world = None" "fault_at 1 fresh_world = None"
    by (simp_all add: fault_at_def fresh_world_def)
  have e: "get_content_hash example_config ''hello'' \<notin> fst ` set (posted_tweets fresh_world)"
    by (simp add: fresh_world_def)
  have f: "says_yes fresh_world"
    by (simp add: says_yes_def fresh_world_def strip_def strip_chars_def isspace_def lower_def
        lower_char_def)
  have g: "validate_x_credentials example_config = Inr True"
    by (simp add: validate_x_credentials_def example_config_def unset_def)
  have h: "platform fresh_world = Created (Response ''17'') # []"
    by (simp add: fresh_world_def)
  show ?thesis
    using fresh_month_permits_posting [OF a, of example_config "''hello''" True "Response ''17''" "[]"]
      b c d e f g h
    by (simp add: transmitted_def fresh_world_def)
qed

text \<open>
  C9. \<open>generate_tweet\<close> returns \<open>None\<close> or a text of at most 280 characters. When the
  model answers with a text, that text is stripped of surrounding whitespace and then of
  surrounding quote characters; what is left is returned as it is when it has at most 280
  characters and cut to its first 277 characters followed by three dots otherwise. An
  empty answer gives \<open>None\<close>.
\<close>

theorem generate_tweet_bounded:
  "(case fst (generate_tweet cfg topic w) of None \<Rightarrow> True | Some t \<Rightarrow> length t \<le> 280) \<and>
   (\<forall>text gs. \<not> unset (GEMINI_API_KEY cfg) \<and> gemini w = GenText text # gs \<longrightarrow>
      fst (generate_tweet cfg topic w) =
        (if text = [] then None
         else if 280 < length (strip_chars is_quote (strip text))
              then Some (take 277 (strip_chars is_quote (strip text)) @ ''...'')
              else Some (strip_chars is_quote (strip text))))"
  by (auto simp: generate_tweet_def generate_tweet_except_def generate_content_def Let_def
      get_gemini_model_def validate_gemini_credentials_def
      split: sum.splits list.splits gen_outcome.splits option.splits)

theorem generate_tweet_bounded_witness:
  "fst (generate_tweet example_config ''tea'' long_reply_world) =
     Some (replicate 277 CHR ''a'' @ ''...'') \<and>
   fst (generate_tweet example_config ''tea'' (fresh_world\<lparr>gemini := [GenText []]\<rparr>)) = None"
proof -
  have k: "\<not> unset (GEMINI_API_KEY example_config)"
    by (simp add: example_config_def unset_def)
  have s: "strip_chars is_quote (strip (CHR 0x22 # replicate 300 CHR ''a'' @ [CHR 0x22, CHR ''\<newline>'']))
             = replicate 300 CHR ''a''"
    by (simp add: strip_def strip_chars_def isspace_def is_quote_def dropWhile_append)
  show ?thesis
    using generate_tweet_bounded [of example_config "''tea''" long_reply_world, THEN conjunct2, rule_format, of "CHR 0x22 # replicate 300 CHR ''a'' @ [CHR 0x22, CHR ''\<newline>'']" "[]"]
      generate_tweet_bounded [of example_config "''tea''" "fresh_world\<lparr>gemini := [GenText []]\<rparr>", THEN conjunct2, rule_format, of "[]" "[]"]
      k
    by (simp add: long_reply_world_def fresh_world_def s)
qed

text \<open>
  C10. That no two rows of \<open>posted_tweets\<close> have the same content hash is kept by every
  operation, and so by every history of calls. After \<open>record_posted_tweet\<close> has returned
  \<open>True\<close>, a further call for a content with the same hash, whatever the tweet id,
  leaves the table as it is.
\<close>

theorem one_row_per_hash:
  "(unique_hashes w \<longrightarrow>
      unique_hashes (snd (record_posted_tweet cfg content tweet_id w)) \<and>
      unique_hashes (snd (has_posted_before cfg content w)) \<and>
      unique_hashes (snd (increment_post_count w)) \<and>
      unique_hashes (snd (get_post_count w)) \<and>
      unique_hashes (snd (generate_tweet cfg topic w)) \<and>
      unique_hashes (snd (post_tweet cfg message require_approval w)) \<and>
      unique_hashes (run cfg calls w)) \<and>
   (record_posted_tweet cfg content tweet_id w = (Inr True, w1) \<and>
    get_content_hash cfg content' = get_content_hash cfg content \<longrightarrow>
      posted_tweets (snd (record_posted_tweet cfg content' tweet_id' w1)) = posted_tweets w1)"
proof -
  obtain r1 v1 where 1: "record_posted_tweet cfg content tweet_id w = (r1, v1)"
    by (cases "record_posted_tweet cfg content tweet_id w")
  obtain r2 v2 where 2: "has_posted_before cfg content w = (r2, v2)"
    by (cases "has_posted_before cfg content w")
  obtain r3 v3 where 3: "increment_post_count w = (r3, v3)"
    by (cases "increment_post_count w")
  obtain r4 v4 where 4: "get_post_count w = (r4, v4)"
    by (cases "get_post_count w")
  have a: "unique_hashes w \<Longrightarrow> unique_hashes v1"
    using record_posted_tweet_effect [OF 1]
    by (simp add: unique_hashes_def distinct_insert_or_ignore)
  have b: "unique_hashes w \<Longrightarrow> unique_hashes v2"
    using has_posted_before_effect [OF 2] by (simp add: unique_hashes_def)
  have c: "unique_hashes w \<Longrightarrow> unique_hashes v3"
    using increment_post_count_effect [OF 3] by (simp add: unique_hashes_def)
  have d: "unique_hashes w \<Longrightarrow> unique_hashes v4"
    using get_post_count_effect [OF 4] by (simp add: unique_hashes_def)
  have e: "unique_hashes w \<Longrightarrow> unique_hashes (snd (generate_tweet cfg topic w))"
    by (simp add: unique_hashes_def generate_tweet_frame)
  have idem: "posted_tweets (snd (record_posted_tweet cfg content' tweet_id' w1)) = posted_tweets w1"
    if first: "record_posted_tweet cfg content tweet_id w = (Inr True, w1)"
      and same: "get_content_hash cfg content' = get_content_hash cfg content"
  proof -
    from record_posted_tweet_effect [OF first]
    have w1: "posted_tweets w1 =
                insert_or_ignore (get_content_hash cfg content) tweet_id (posted_tweets w)"
      by (simp split: if_splits)
    obtain r5 v5 where 5: "record_posted_tweet cfg content' tweet_id' w1 = (r5, v5)"
      by (cases "record_posted_tweet cfg content' tweet_id' w1")
    from record_posted_tweet_effect [OF 5] show ?thesis
      by (simp add: 5 same w1 insert_or_ignore_twice)
  qed
  show ?thesis
    using a b c d e idem post_tweet_unique run_unique by (simp add: 1 2 3 4)
qed

theorem one_row_per_hash_witness:
  "unique_hashes fresh_world \<and>
   unique_hashes (snd (record_posted_tweet example_config ''hello'' ''17'' fresh_world)) \<and>
   posted_tweets (snd (record_posted_tweet example_config ''hello'' ''18''
       (snd (record_posted_tweet example_config ''hello'' ''17'' fresh_world)))) =
     [(''hello'', ''17'')]"
proof -
  have u: "unique_hashes fresh_world"
    by (simp add: unique_hashes_def fresh_world_def)
  have a: "record_posted_tweet example_config ''hello'' ''17'' fresh_world =
             (Inr True, snd (record_posted_tweet example_config ''hello'' ''17'' fresh_world))"
    by (simp add: record_posted_tweet_def get_db_connection_def fresh_world_def)
  have p: "posted_tweets (snd (record_posted_tweet example_config ''hello'' ''17'' fresh_world)) =
             [(''hello'', ''17'')]"
    by (simp add: record_posted_tweet_def get_db_connection_def fresh_world_def
        insert_or_ignore_def get_content_hash_def example_config_def encode_def encode_char_def)
  show ?thesis
    using u a p
      one_row_per_hash [of fresh_world example_config "''hello''" "''17''" "''tea''" "''hello''"
        False "[]" "snd (record_posted_tweet example_config ''hello'' ''17'' fresh_world)"
        "''hello''" "''18''"]
    by simp
qed

text \<open>
  C4, as the code has it. A call of \<open>post_tweet\<close> that returns the response adds one to
  the count of the current month, and changes the count of no other month, when sqlite
  does not fail in the connection block of \<open>increment_post_count\<close>; the row is appended
  with count 1 when the month had none. When sqlite fails there the error is logged and
  \<open>post_counts\<close> stays as it was, although the tweet has been sent. So over any history
  of calls that starts with empty tables and no tweet sent, the count of every month is
  at most the number of tweets sent in that month, and equal to it when sqlite never
  fails. The clock is taken to show one month during a call.
\<close>

theorem quota_counter_tally:
  "(post_tweet cfg message require_approval w = (Some r, w') \<longrightarrow>
      (\<forall>m. count_for m w' =
            count_for m w + (if m = current_month w \<and> fault_at 2 w = None then 1 else 0)) \<and>
      (fault_at 2 w = None \<and> current_month w \<notin> fst ` set (post_counts w) \<longrightarrow>
         post_counts w' = post_counts w @ [(current_month w, 1)]) \<and>
      (fault_at 2 w \<noteq> None \<longrightarrow> post_counts w' = post_counts w)) \<and>
   (post_counts w0 = [] \<and> transmitted w0 = [] \<longrightarrow>
      (\<forall>m. count_for m (run cfg calls w0) \<le> tweets_in m (run cfg calls w0)) \<and>
      ((\<forall>f\<in>set (db_faults w0). f = None) \<longrightarrow>
         (\<forall>m. count_for m (run cfg calls w0) = tweets_in m (run cfg calls w0))))"
proof -
  have step: "(\<forall>m. count_for m w' =
            count_for m w + (if m = current_month w \<and> fault_at 2 w = None then 1 else 0)) \<and>
      (fault_at 2 w = None \<and> current_month w \<notin> fst ` set (post_counts w) \<longrightarrow>
         post_counts w' = post_counts w @ [(current_month w, 1)]) \<and>
      (fault_at 2 w \<noteq> None \<longrightarrow> post_counts w' = post_counts w)"
    if res: "post_tweet cfg message require_approval w = (Some r, w')"
  proof -
    from post_tweet_tally [OF res]
    have a: "\<forall>m. count_for m w' =
            count_for m w + (if m = current_month w \<and> fault_at 2 w = None then 1 else 0)"
      by simp
    from post_tweet_Some [OF res]
    have b: "post_counts w' = (if fault_at 2 w = None
               then upsert_count (current_month w) (post_counts w) else post_counts w)"
      by (simp add: numeral_2_eq_2)
    from a b show ?thesis
      by (auto simp: upsert_count_new)
  qed
  have hist: "(\<forall>m. count_for m (run cfg calls w0) \<le> tweets_in m (run cfg calls w0)) \<and>
      ((\<forall>f\<in>set (db_faults w0). f = None) \<longrightarrow>
         (\<forall>m. count_for m (run cfg calls w0) = tweets_in m (run cfg calls w0)))"
    if new: "post_counts w0 = []" "transmitted w0 = []"
  proof -
    from new have zero: "\<forall>m. count_for m w0 = tweets_in m w0"
      by (simp add: count_for_def tweets_in_def)
    then have "\<forall>m. count_for m w0 \<le> tweets_in m w0"
      by simp
    from run_tally_le [OF this] run_tally_eq [OF _ zero] show ?thesis
      by blast
  qed
  from step hist show ?thesis
    by blast
qed

theorem quota_counter_tally_witness:
  "post_counts (snd (post_tweet example_config ''hello'' False fresh_world)) = [(''2026-01'', 1)] \<and>
   count_for ''2026-01'' (snd (post_tweet example_config ''hello'' False fresh_world)) = 1 \<and>
   count_for ''2026-01'' (run example_config [(''2026-01'', ''hello'', False)] fresh_world) =
     tweets_in ''2026-01'' (run example_config [(''2026-01'', ''hello'', False)] fresh_world)"
proof -
  have "fst (post_tweet example_config ''hello'' False fresh_world) = Some (Response ''17'')"
    by code_simp
  then have a: "post_tweet example_config ''hello'' False fresh_world =
      (Some (Response ''17''), snd (post_tweet example_config ''hello'' False fresh_world))"
    by (simp add: prod_eq_iff)
  have b: "fault_at 2 fresh_world = None" "current_month fresh_world = ''2026-01''"
    "post_counts fresh_world = []" "transmitted fresh_world = []"
    "\<forall>f\<in>set (db_faults fresh_world). f = None"
    by (simp_all add: fault_at_def fresh_world_def transmitted_def)
  have c: "count_for ''2026-01'' fresh_world = 0"
    by (simp add: count_for_def fresh_world_def)
  show ?thesis
    using a b c
      quota_counter_tally [of example_config "''hello''" False fresh_world "Response ''17''"
        "snd (post_tweet example_config ''hello'' False fresh_world)" fresh_world
        "[(''2026-01'', ''hello'', False)]"]
    by simp
qed

text \<open>
  C4 as stated fails: with sqlite failing in the block of \<open>increment_post_count\<close>, the
  call returns the response and the tweet is sent in 2026-01, and the count of 2026-01,
  0 before the call, is 0 after it.
\<close>

theorem quota_counter_tally_counterexample:
  "post_counts failing_write_world = [] \<and> transmitted failing_write_world = [] \<and>
   fst (post_tweet example_config ''hello'' False failing_write_world) =
     Some (Response ''17'') \<and>
   transmitted (snd (post_tweet example_config ''hello'' False failing_write_world)) =
     [(''2026-01'', ''hello'')] \<and>
   tweets_in ''2026-01'' (snd (post_tweet example_config ''hello'' False failing_write_world)) = 1 \<and>
   count_for ''2026-01'' (snd (post_tweet example_config ''hello'' False failing_write_world)) = 0 \<and>
   count_for ''2026-01'' (snd (post_tweet example_config ''hello'' False failing_write_world)) \<noteq>
     count_for ''2026-01'' failing_write_world + 1"
  by code_simp

end
